theory Spec2Isabelle
  imports Main "HOL-Library.AList" "HOL-Library.List_Lexorder"
begin

section \<open>Python values used by GeminiChatBot.py\<close>

text \<open>
  A Python \<^verbatim>\<open>str\<close> is a sequence of Unicode code points, so it is modelled as a list
  of natural numbers; \<open>ustr\<close> turns an ASCII literal into that form. Slicing
  (\<^verbatim>\<open>title[:50]\<close>) then counts code points, as Python does.
\<close>

type_synonym pystr = "nat list"

definition ustr :: "string \<Rightarrow> pystr" where
  "ustr s = map of_char s"

text \<open>
  \<^verbatim>\<open>str.strip()\<close> and \<^verbatim>\<open>str.split()\<close> without arguments use the whitespace test of
  \<^verbatim>\<open>str.isspace\<close>: U+0009..U+000D, U+001C..U+0020, U+0085, U+00A0, U+1680,
  U+2000..U+200A, U+2028, U+2029, U+202F, U+205F and U+3000.
\<close>

definition isspace :: "nat \<Rightarrow> bool" where
  "isspace c \<longleftrightarrow>
     (9 \<le> c \<and> c \<le> 13) \<or> (28 \<le> c \<and> c \<le> 32) \<or> c = 133 \<or> c = 160 \<or> c = 5760 \<or>
     (8192 \<le> c \<and> c \<le> 8202) \<or> c = 8232 \<or> c = 8233 \<or> c = 8239 \<or> c = 8287 \<or> c = 12288"

text \<open>\<^verbatim>\<open>s.strip()\<close>: whitespace is dropped at both ends.\<close>

definition py_strip :: "pystr \<Rightarrow> pystr" where
  "py_strip s = rev (dropWhile isspace (rev (dropWhile isspace s)))"

text \<open>
  \<^verbatim>\<open>s.split(sep)\<close> for a separator of one code point. The result is never empty:
  \<^verbatim>\<open>"".split("\n") == [""]\<close>.
\<close>

fun py_split_sep :: "nat \<Rightarrow> pystr \<Rightarrow> pystr list" where
  "py_split_sep sep [] = [[]]"
| "py_split_sep sep (c # cs) =
     (if c = sep then [] # py_split_sep sep cs
      else (case py_split_sep sep cs of
              [] \<Rightarrow> [[c]]
            | w # ws \<Rightarrow> (c # w) # ws))"

text \<open>\<^verbatim>\<open>s.replace(c, "")\<close> for a pattern \<open>c\<close> of one code point: every occurrence goes.\<close>

definition py_remove :: "nat \<Rightarrow> pystr \<Rightarrow> pystr" where
  "py_remove c s = filter (\<lambda>x. x \<noteq> c) s"

text \<open>
  \<^verbatim>\<open>s.split()\<close>: the maximal runs of non-whitespace, in order; \<open>cur\<close> is the word
  being read.
\<close>

fun split_ws_from :: "pystr \<Rightarrow> pystr \<Rightarrow> pystr list" where
  "split_ws_from cur [] = (if cur = [] then [] else [cur])"
| "split_ws_from cur (c # cs) =
     (if isspace c then (if cur = [] then split_ws_from [] cs else cur # split_ws_from [] cs)
      else split_ws_from (cur @ [c]) cs)"

definition py_split_ws :: "pystr \<Rightarrow> pystr list" where
  "py_split_ws s = split_ws_from [] s"

text \<open>\<^verbatim>\<open>sep.join(ws)\<close>.\<close>

fun py_join :: "pystr \<Rightarrow> pystr list \<Rightarrow> pystr" where
  "py_join sep [] = []"
| "py_join sep [w] = w"
| "py_join sep (w # v # ws) = w @ sep @ py_join sep (v # ws)"

text \<open>
  The decimal text of an integer, as an f-string prints it: \<^verbatim>\<open>f"{n}"\<close>. Python's
  integers are unbounded, so the counter is an \<open>int\<close>.
\<close>

fun str_nat :: "nat \<Rightarrow> pystr" where
  "str_nat n = (if n < 10 then [48 + n] else str_nat (n div 10) @ [48 + n mod 10])"

declare str_nat.simps [simp del]

definition str_int :: "int \<Rightarrow> pystr" where
  "str_int i = (if i < 0 then 45 # str_nat (nat (- i)) else str_nat (nat i))"

section \<open>Session state\<close>

text \<open>
  A message is the dictionary \<^verbatim>\<open>{"role": ..., "content": ...}\<close>; the only roles the
  script writes are \<^verbatim>\<open>"user"\<close> and \<^verbatim>\<open>"model"\<close>. The entry sent to the API is
  \<^verbatim>\<open>{"role": ..., "parts": [{"text": ...}]}\<close>.
\<close>

datatype role = User | Model

record message =
  role :: role
  content :: pystr

record api_message =
  api_role :: role
  parts :: "pystr list"

text \<open>
  A Python \<^verbatim>\<open>dict\<close> keeps its keys in insertion order, and \<^verbatim>\<open>delete_chat\<close> reads the
  first key, so the two dictionaries are association lists: \<open>AList.update\<close> overwrites in
  place or appends a new key at the end, \<open>AList.delete\<close> is \<^verbatim>\<open>del d[k]\<close>, \<open>map_of\<close>
  is the lookup.
\<close>

record session_state =
  chats :: "(pystr \<times> message list) list"
  chat_titles :: "(pystr \<times> pystr) list"
  active_chat :: pystr
  chat_counter :: int
  user_input :: pystr

definition greeting :: message where
  "greeting = \<lparr>role = Model, content = ustr ''Hello! How can I assist you today?''\<rparr>"

text \<open>Lines 30-41: the values a fresh session starts with.\<close>

definition init_state :: session_state where
  "init_state =
     \<lparr>chats = [(ustr ''Chat 1'', [greeting])],
      chat_titles = [(ustr ''Chat 1'', ustr ''Chat 1'')],
      active_chat = ustr ''Chat 1'',
      chat_counter = 1,
      user_input = []\<rparr>"

text \<open>
  The two models are outside the program. A call either raises, and \<open>Inl\<close> carries
  \<^verbatim>\<open>str(e)\<close>, or it returns, and \<open>Inr\<close> carries \<^verbatim>\<open>response.text\<close>.
  \<open>generate_content\<close> stands for lines 137-138, \<open>title_generate_content\<close> for lines
  80-85 up to \<^verbatim>\<open>response.text\<close>.
\<close>

record env =
  generate_content :: "api_message list \<Rightarrow> pystr + pystr"
  title_generate_content :: "pystr \<Rightarrow> pystr + pystr"

text \<open>What a handler does besides changing the session state, in order.\<close>

datatype effect =
    Rerun
  | St_error pystr
  | St_warning pystr
  | Model_call "api_message list"
  | Title_model_call pystr

section \<open>Utility functions\<close>

definition get_active_chat_history :: "session_state \<Rightarrow> message list" where
  "get_active_chat_history s =
     (case map_of (chats s) (active_chat s) of None \<Rightarrow> [] | Some h \<Rightarrow> h)"

definition save_chat_history :: "pystr \<Rightarrow> message list \<Rightarrow> session_state \<Rightarrow> session_state" where
  "save_chat_history chat_id messages s = s\<lparr>chats := AList.update chat_id messages (chats s)\<rparr>"

text \<open>
  \<^verbatim>\<open>delete_chat\<close>, lines 50-66. \<^verbatim>\<open>st.rerun()\<close> sits inside the outer \<^verbatim>\<open>if\<close>, so an
  unknown identifier neither changes the state nor restarts the script.
\<close>

definition delete_chat :: "pystr \<Rightarrow> session_state \<Rightarrow> session_state \<times> effect list" where
  "delete_chat chat_id s =
     (if chat_id \<in> set (map fst (chats s)) then
        let s1 = s\<lparr>chats := AList.delete chat_id (chats s)\<rparr>;
            s2 = (if chat_id \<in> set (map fst (chat_titles s1))
                  then s1\<lparr>chat_titles := AList.delete chat_id (chat_titles s1)\<rparr> else s1);
            s3 = (if chat_id = active_chat s2 then
                    (case chats s2 of
                       (k, h) # rest \<Rightarrow> s2\<lparr>active_chat := k\<rparr>
                     | [] \<Rightarrow>
                         let new_chat_id = ustr ''Chat 1''
                         in s2\<lparr>chat_counter := 1,
                               chats := AList.update new_chat_id [greeting] (chats s2),
                               chat_titles := AList.update new_chat_id new_chat_id (chat_titles s2),
                               active_chat := new_chat_id\<rparr>)
                  else s2)
        in (s3, [Rerun])
      else (s, []))"

section \<open>Title generation\<close>

text \<open>Lines 85-87, what is done to \<^verbatim>\<open>response.text\<close>. An empty split would raise
  \<^verbatim>\<open>IndexError\<close> at \<^verbatim>\<open>[0]\<close>, which is \<open>None\<close> here.\<close>

definition sanitize_title :: "pystr \<Rightarrow> pystr option" where
  "sanitize_title response_text =
     (case py_split_sep 10 (py_strip response_text) of
        [] \<Rightarrow> None
      | title # others \<Rightarrow> Some (take 50 (py_strip (py_remove 34 (py_remove 42 title)))))"

text \<open>Line 90, the value returned by the \<^verbatim>\<open>except\<close> branch.\<close>

definition fallback_title :: "pystr \<Rightarrow> pystr" where
  "fallback_title original_prompt =
     (if original_prompt \<noteq> []
      then py_join (ustr '' '') (take 5 (py_split_ws original_prompt)) @ ustr ''...''
      else ustr ''New Chat'')"

definition title_request :: "pystr \<Rightarrow> pystr \<Rightarrow> pystr" where
  "title_request text_content original_prompt =
     ustr ''Generate a very short title (3-5 words) for this conversation snippet:'' @ [10, 10] @
     ustr ''User: '' @ original_prompt @ [10] @ ustr ''Assistant: '' @ text_content"

text \<open>
  \<^verbatim>\<open>generate_title_from_summary\<close>, lines 77-90: every exception of the \<^verbatim>\<open>try\<close> block
  ends in the warning and the fallback title, so the function always returns a title.
\<close>

definition generate_title_from_summary :: "env \<Rightarrow> pystr \<Rightarrow> pystr \<Rightarrow> pystr \<times> effect list" where
  "generate_title_from_summary e text_content original_prompt =
     (let request = title_request text_content original_prompt
      in case title_generate_content e request of
           Inr response_text \<Rightarrow>
             (case sanitize_title response_text of
                Some title \<Rightarrow> (title, [Title_model_call request])
              | None \<Rightarrow>
                  (fallback_title original_prompt,
                   [Title_model_call request,
                    St_warning (ustr ''Could not generate title automatically: '' @
                                ustr ''list index out of range'')]))
         | Inl cause \<Rightarrow>
             (fallback_title original_prompt,
              [Title_model_call request,
               St_warning (ustr ''Could not generate title automatically: '' @ cause)]))"

section \<open>The sidebar and the submission handler\<close>

text \<open>Line 97: \<^verbatim>\<open>f"Chat {st.session_state.chat_counter}"\<close>.\<close>

definition chat_id_of :: "int \<Rightarrow> pystr" where
  "chat_id_of n = ustr ''Chat '' @ str_int n"

text \<open>Lines 95-103, the body of the New Chat button.\<close>

definition new_chat :: "session_state \<Rightarrow> session_state \<times> effect list" where
  "new_chat s =
     (let s1 = s\<lparr>chat_counter := chat_counter s + 1\<rparr>;
          new_id = chat_id_of (chat_counter s1);
          s2 = s1\<lparr>chats := AList.update new_id [greeting] (chats s1)\<rparr>;
          s3 = s2\<lparr>chat_titles := AList.update new_id new_id (chat_titles s2)\<rparr>
      in (s3\<lparr>active_chat := new_id\<rparr>, [Rerun]))"

text \<open>Line 143: \<^verbatim>\<open>chat_titles.get(current_chat_id, "") == current_chat_id\<close>.\<close>

definition is_default_title :: "(pystr \<times> pystr) list \<Rightarrow> pystr \<Rightarrow> bool" where
  "is_default_title titles current_chat_id \<longleftrightarrow>
     (case map_of titles current_chat_id of None \<Rightarrow> [] | Some t \<Rightarrow> t) = current_chat_id"

text \<open>Line 134, the history in the form the API takes.\<close>

definition api_history_of :: "message list \<Rightarrow> api_message list" where
  "api_history_of h = map (\<lambda>msg. \<lparr>api_role = role msg, parts = [content msg]\<rparr>) h"

text \<open>
  \<^verbatim>\<open>handle_chat_submission\<close>, lines 126-155. The history is extended in place and
  written back under the active identifier at the end, on both paths.
\<close>

definition handle_chat_submission ::
  "env \<Rightarrow> pystr \<Rightarrow> session_state \<Rightarrow> session_state \<times> effect list" where
  "handle_chat_submission e prompt_text s =
     (if prompt_text = [] then (s, [])
      else
        let h1 = get_active_chat_history s @ [\<lparr>role = User, content = prompt_text\<rparr>];
            api_history = api_history_of h1;
            (s2, h3, effs) =
              (case generate_content e api_history of
                 Inr reply_text \<Rightarrow>
                   let h2 = h1 @ [\<lparr>role = Model, content = reply_text\<rparr>];
                       current_chat_id = active_chat s
                   in if is_default_title (chat_titles s) current_chat_id \<and> 2 \<le> length h2 then
                        let user_prompt_for_title = content (h2 ! (length h2 - 2));
                            (new_title, teffs) =
                              generate_title_from_summary e reply_text user_prompt_for_title
                        in (s\<lparr>chat_titles :=
                                 AList.update current_chat_id new_title (chat_titles s)\<rparr>,
                            h2, Model_call api_history # teffs)
                      else (s, h2, [Model_call api_history])
               | Inl cause \<Rightarrow>
                   let error_message = ustr ''An error occurred: '' @ cause
                   in (s, h1 @ [\<lparr>role = Model, content = ustr ''Error: '' @ error_message\<rparr>],
                       [Model_call api_history, St_error error_message]));
            s3 = save_chat_history (active_chat s2) h3 s2
        in (s3\<lparr>user_input := []\<rparr>, effs @ [Rerun]))"

text \<open>
  One run of the script for one event of the page. A button is true only in the run its
  click starts, and the chat input returns its text only in the run the submission starts.
\<close>

datatype ui_event =
    No_event
  | New_chat_clicked
  | Select_clicked pystr
  | Delete_clicked pystr
  | Chat_input pystr

text \<open>Line 105: \<^verbatim>\<open>sorted(keys, reverse=True)\<close>, strings compared code point by code point.\<close>

definition sorted_chat_ids :: "session_state \<Rightarrow> pystr list" where
  "sorted_chat_ids s = rev (sort (map fst (chats s)))"

text \<open>
  Lines 106-120, the loop over the rows of the sidebar: \<open>None\<close> when no button of the
  remaining rows fired, otherwise the state at the \<^verbatim>\<open>st.rerun()\<close> that ends the run.
\<close>

fun sidebar_rows ::
  "ui_event \<Rightarrow> pystr list \<Rightarrow> session_state \<Rightarrow> (session_state \<times> effect list) option" where
  "sidebar_rows ev [] s = None"
| "sidebar_rows ev (chat_id # rest) s =
     (if ev = Select_clicked chat_id then Some (s\<lparr>active_chat := chat_id\<rparr>, [Rerun])
      else if ev = Delete_clicked chat_id then
        (case delete_chat chat_id s of
           (s', effs) \<Rightarrow> if Rerun \<in> set effs then Some (s', effs) else sidebar_rows ev rest s')
      else sidebar_rows ev rest s)"

definition script_run :: "env \<Rightarrow> ui_event \<Rightarrow> session_state \<Rightarrow> session_state \<times> effect list" where
  "script_run e ev s =
     (if ev = New_chat_clicked then new_chat s
      else
        (case sidebar_rows ev (sorted_chat_ids s) s of
           Some r \<Rightarrow> r
         | None \<Rightarrow>
             let s1 = (case ev of
                         Chat_input prompt_from_input \<Rightarrow>
                           if prompt_from_input \<noteq> [] then s\<lparr>user_input := prompt_from_input\<rparr>
                           else s
                       | _ \<Rightarrow> s)
             in if user_input s1 \<noteq> [] then handle_chat_submission e (user_input s1) s1
                else (s1, [])))"

text \<open>A session: one run after the other, each with the answers the models give then.\<close>

fun run_session :: "(env \<times> ui_event) list \<Rightarrow> session_state \<Rightarrow> session_state" where
  "run_session [] s = s"
| "run_session ((e, ev) # rest) s = run_session rest (fst (script_run e ev s))"

section \<open>Sessions, and the notions the properties speak of\<close>

fun is_title_call :: "effect \<Rightarrow> bool" where
  "is_title_call (Title_model_call request) = True"
| "is_title_call other = False"

text \<open>
  How often the title model is asked on behalf of thread \<open>k\<close> during a session: a
  submission works on the thread that is active when its run starts.
\<close>

fun retitle_count :: "pystr \<Rightarrow> (env \<times> ui_event) list \<Rightarrow> session_state \<Rightarrow> nat" where
  "retitle_count k [] s = 0"
| "retitle_count k ((e, ev) # rest) s =
     (if active_chat s = k then length (filter is_title_call (snd (script_run e ev s))) else 0)
     + retitle_count k rest (fst (script_run e ev s))"

text \<open>The identifiers minted by the New Chat button during a session, in order.\<close>

fun minted_ids :: "(env \<times> ui_event) list \<Rightarrow> session_state \<Rightarrow> pystr list" where
  "minted_ids [] s = []"
| "minted_ids ((e, ev) # rest) s =
     (if ev = New_chat_clicked then [active_chat (fst (script_run e ev s))] else [])
     @ minted_ids rest (fst (script_run e ev s))"

text \<open>
  The event that takes \<^verbatim>\<open>delete_chat\<close> to lines 58-65: the delete button of the active
  thread when no other thread is left.
\<close>

definition deletes_last_chat :: "ui_event \<Rightarrow> session_state \<Rightarrow> bool" where
  "deletes_last_chat ev s =
     (case ev of
        Delete_clicked chat_id \<Rightarrow>
          chat_id \<in> set (map fst (chats s)) \<and> chat_id = active_chat s \<and>
          AList.delete chat_id (chats s) = []
      | _ \<Rightarrow> False)"

fun no_reset :: "(env \<times> ui_event) list \<Rightarrow> session_state \<Rightarrow> bool" where
  "no_reset [] s = True"
| "no_reset ((e, ev) # rest) s =
     (\<not> deletes_last_chat ev s \<and> no_reset rest (fst (script_run e ev s)))"

text \<open>
  Three properties of the states a session passes through: the two dictionaries have the
  same keys in the same order, the active identifier is a key of \<^verbatim>\<open>chats\<close>, and
  every key was minted from a number the counter has reached.
\<close>

definition keys_agree :: "session_state \<Rightarrow> bool" where
  "keys_agree s \<longleftrightarrow> map fst (chats s) = map fst (chat_titles s)"

definition active_known :: "session_state \<Rightarrow> bool" where
  "active_known s \<longleftrightarrow> active_chat s \<in> set (map fst (chats s))"

definition ids_bounded :: "session_state \<Rightarrow> bool" where
  "ids_bounded s \<longleftrightarrow>
     (\<forall>k\<in>set (map fst (chats s)). \<exists>n. n \<le> chat_counter s \<and> k = chat_id_of n)"

definition well_formed :: "session_state \<Rightarrow> bool" where
  "well_formed s \<longleftrightarrow> keys_agree s \<and> active_known s \<and> ids_bounded s"

text \<open>An environment whose two models answer the same way whatever they are asked.\<close>

definition const_env :: "pystr + pystr \<Rightarrow> pystr + pystr \<Rightarrow> env" where
  "const_env answer title_answer =
     \<lparr>generate_content = (\<lambda>h. answer), title_generate_content = (\<lambda>request. title_answer)\<rparr>"

text \<open>
  The sanitization as the specification words it, for comparison with
  \<open>sanitize_title\<close>: the first line of the returned text, without asterisks and double
  quotes, trimmed, cut to 50 code points.
\<close>

definition spec_sanitize_title :: "pystr \<Rightarrow> pystr" where
  "spec_sanitize_title response_text =
     take 50 (py_strip (py_remove 34 (py_remove 42 (takeWhile (\<lambda>c. c \<noteq> 10) response_text))))"

section \<open>Facts about the string helpers\<close>

lemma py_split_sep_first: "\<exists>rest. py_split_sep sep s = takeWhile (\<lambda>c. c \<noteq> sep) s # rest"
  by (induction s) auto

lemma sanitize_title_eq:
  "sanitize_title t =
     Some (take 50 (py_strip (py_remove 34 (py_remove 42
             (takeWhile (\<lambda>c. c \<noteq> 10) (py_strip t))))))"
proof -
  obtain rest where
    "py_split_sep 10 (py_strip t) = takeWhile (\<lambda>c. c \<noteq> 10) (py_strip t) # rest"
    using py_split_sep_first by blast
  then show ?thesis by (simp add: sanitize_title_def)
qed

lemma set_py_strip: "set (py_strip s) \<subseteq> set s"
proof -
  have "set (py_strip s) \<subseteq> set (dropWhile isspace s)"
    unfolding py_strip_def using set_dropWhileD by fastforce
  also have "\<dots> \<subseteq> set s" using set_dropWhileD by fastforce
  finally show ?thesis .
qed

lemma sanitize_title_chars:
  assumes "sanitize_title t = Some r"
  shows "length r \<le> 50 \<and> 42 \<notin> set r \<and> 34 \<notin> set r"
proof -
  let ?l = "takeWhile (\<lambda>c. c \<noteq> 10) (py_strip t)"
  have r: "r = take 50 (py_strip (py_remove 34 (py_remove 42 ?l)))"
    using assms by (simp add: sanitize_title_eq)
  have "set r \<subseteq> set (py_strip (py_remove 34 (py_remove 42 ?l)))"
    unfolding r by (rule set_take_subset)
  also have "\<dots> \<subseteq> set (py_remove 34 (py_remove 42 ?l))" by (rule set_py_strip)
  finally have "set r \<subseteq> set (py_remove 34 (py_remove 42 ?l))" .
  moreover have "42 \<notin> set (py_remove 34 (py_remove 42 ?l))"
    and "34 \<notin> set (py_remove 34 (py_remove 42 ?l))"
    by (simp_all add: py_remove_def)
  ultimately show ?thesis using r by auto
qed

lemma split_ws_from_words:
  "\<forall>c\<in>set cur. \<not> isspace c \<Longrightarrow>
   \<forall>w\<in>set (split_ws_from cur s). w \<noteq> [] \<and> (\<forall>c\<in>set w. \<not> isspace c)"
proof (induction s arbitrary: cur)
  case Nil
  then show ?case by simp
next
  case (Cons a s)
  have fresh: "\<forall>w\<in>set (split_ws_from [] s). w \<noteq> [] \<and> (\<forall>c\<in>set w. \<not> isspace c)"
    using Cons.IH[of "[]"] by simp
  show ?case
  proof (cases "isspace a")
    case True
    then show ?thesis using fresh Cons.prems by auto
  next
    case False
    then have "\<forall>c\<in>set (cur @ [a]). \<not> isspace c" using Cons.prems by auto
    from Cons.IH[OF this] show ?thesis using False by simp
  qed
qed

lemma concat_split_ws_from:
  "concat (split_ws_from cur s) = cur @ filter (\<lambda>c. \<not> isspace c) s"
  by (induction s arbitrary: cur) auto

section \<open>What one submission does\<close>

lemma submission_empty: "handle_chat_submission e [] s = (s, [])"
  by (simp add: handle_chat_submission_def)

lemma submission_failure:
  assumes "prompt_text \<noteq> []"
    and "generate_content e (api_history_of
           (get_active_chat_history s @ [\<lparr>role = User, content = prompt_text\<rparr>])) = Inl cause"
  shows "handle_chat_submission e prompt_text s =
           (s\<lparr>chats := AList.update (active_chat s)
                 (get_active_chat_history s @
                    [\<lparr>role = User, content = prompt_text\<rparr>,
                     \<lparr>role = Model,
                      content = ustr ''Error: '' @ ustr ''An error occurred: '' @ cause\<rparr>])
                 (chats s),
               user_input := []\<rparr>,
            [Model_call (api_history_of
               (get_active_chat_history s @ [\<lparr>role = User, content = prompt_text\<rparr>])),
             St_error (ustr ''An error occurred: '' @ cause), Rerun])"
  using assms by (simp add: handle_chat_submission_def Let_def save_chat_history_def)

lemma submission_success_retitle:
  assumes "prompt_text \<noteq> []"
    and "generate_content e (api_history_of
           (get_active_chat_history s @ [\<lparr>role = User, content = prompt_text\<rparr>])) = Inr reply_text"
    and "is_default_title (chat_titles s) (active_chat s)"
  shows "handle_chat_submission e prompt_text s =
           (s\<lparr>chat_titles := AList.update (active_chat s)
                 (fst (generate_title_from_summary e reply_text prompt_text)) (chat_titles s),
               chats := AList.update (active_chat s)
                 (get_active_chat_history s @
                    [\<lparr>role = User, content = prompt_text\<rparr>,
                     \<lparr>role = Model, content = reply_text\<rparr>])
                 (chats s),
               user_input := []\<rparr>,
            Model_call (api_history_of
               (get_active_chat_history s @ [\<lparr>role = User, content = prompt_text\<rparr>])) #
            snd (generate_title_from_summary e reply_text prompt_text) @ [Rerun])"
  using assms
  by (simp add: handle_chat_submission_def Let_def save_chat_history_def nth_append
        split: prod.splits)

lemma submission_success_keep:
  assumes "prompt_text \<noteq> []"
    and "generate_content e (api_history_of
           (get_active_chat_history s @ [\<lparr>role = User, content = prompt_text\<rparr>])) = Inr reply_text"
    and "\<not> is_default_title (chat_titles s) (active_chat s)"
  shows "handle_chat_submission e prompt_text s =
           (s\<lparr>chats := AList.update (active_chat s)
                 (get_active_chat_history s @
                    [\<lparr>role = User, content = prompt_text\<rparr>,
                     \<lparr>role = Model, content = reply_text\<rparr>])
                 (chats s),
               user_input := []\<rparr>,
            [Model_call (api_history_of
               (get_active_chat_history s @ [\<lparr>role = User, content = prompt_text\<rparr>])),
             Rerun])"
  using assms by (simp add: handle_chat_submission_def Let_def save_chat_history_def)

lemma title_effects_failure:
  assumes "title_generate_content e (title_request text_content original_prompt) = Inl cause"
  shows "generate_title_from_summary e text_content original_prompt =
           (fallback_title original_prompt,
            [Title_model_call (title_request text_content original_prompt),
             St_warning (ustr ''Could not generate title automatically: '' @ cause)])"
  using assms by (simp add: generate_title_from_summary_def)

lemma title_calls_once:
  "length (filter is_title_call (snd (generate_title_from_summary e text_content original_prompt)))
     = 1"
  by (simp add: generate_title_from_summary_def Let_def split: sum.splits option.splits)

section \<open>Deleting a thread\<close>

text \<open>
  C10. \<^verbatim>\<open>delete_chat\<close> with an identifier that is not a key of \<^verbatim>\<open>chats\<close> returns the
  session state as it was (threads, titles, active identifier, counter and pending input),
  and asks for no rerun.
\<close>

theorem delete_unknown_id_unchanged:
  "chat_id \<notin> set (map fst (chats s)) \<Longrightarrow> delete_chat chat_id s = (s, [])"
  by (simp add: delete_chat_def)

theorem delete_unknown_id_unchanged_witness:
  "ustr ''Chat 9'' \<notin> set (map fst (chats init_state)) \<and>
   delete_chat (ustr ''Chat 9'') init_state = (init_state, [])"
proof -
  have h: "ustr ''Chat 9'' \<notin> set (map fst (chats init_state))"
    by (simp add: init_state_def ustr_def)
  show ?thesis using h delete_unknown_id_unchanged[OF h] by simp
qed

text \<open>
  C2. When \<^verbatim>\<open>chats\<close> has exactly one key and that key is the active one, deleting it
  leaves exactly one thread, "Chat 1", holding only the greeting of the model; its title is
  "Chat 1", it is the active thread, and the counter is 1.
\<close>

theorem delete_sole_thread:
  assumes "map fst (chats s) = [chat_id]" and "active_chat s = chat_id"
  shows "chats (fst (delete_chat chat_id s)) = [(ustr ''Chat 1'', [greeting])]
       \<and> role greeting = Model
       \<and> map_of (chat_titles (fst (delete_chat chat_id s))) (ustr ''Chat 1'') = Some (ustr ''Chat 1'')
       \<and> active_chat (fst (delete_chat chat_id s)) = ustr ''Chat 1''
       \<and> chat_counter (fst (delete_chat chat_id s)) = 1"
proof -
  from assms(1) obtain h where c: "chats s = [(chat_id, h)]"
    by (cases "chats s") auto
  show ?thesis
    using assms(2) by (simp add: delete_chat_def c AList.update_conv' Let_def greeting_def)
qed

theorem delete_sole_thread_witness:
  "map fst (chats init_state) = [ustr ''Chat 1''] \<and> active_chat init_state = ustr ''Chat 1''
   \<and> chats (fst (delete_chat (ustr ''Chat 1'') init_state)) = [(ustr ''Chat 1'', [greeting])]
   \<and> role greeting = Model
   \<and> map_of (chat_titles (fst (delete_chat (ustr ''Chat 1'') init_state))) (ustr ''Chat 1'')
       = Some (ustr ''Chat 1'')
   \<and> active_chat (fst (delete_chat (ustr ''Chat 1'') init_state)) = ustr ''Chat 1''
   \<and> chat_counter (fst (delete_chat (ustr ''Chat 1'') init_state)) = 1"
proof -
  have h1: "map fst (chats init_state) = [ustr ''Chat 1'']" by (simp add: init_state_def)
  have h2: "active_chat init_state = ustr ''Chat 1''" by (simp add: init_state_def)
  show ?thesis using h1 h2 delete_sole_thread[OF h1 h2] by blast
qed

section \<open>Submitting a prompt\<close>

text \<open>
  C7. For a non-empty prompt whose completion call returns a reply, the history of the
  active thread is the old history followed by the user turn with the prompt and then the
  model turn with the reply; the active identifier is the same and the history stored under
  every other identifier is untouched.
\<close>

theorem submission_success_two_turns:
  assumes "prompt_text \<noteq> []"
    and "generate_content e (api_history_of
           (get_active_chat_history s @ [\<lparr>role = User, content = prompt_text\<rparr>])) = Inr reply_text"
  shows "get_active_chat_history (fst (handle_chat_submission e prompt_text s)) =
           get_active_chat_history s @
             [\<lparr>role = User, content = prompt_text\<rparr>, \<lparr>role = Model, content = reply_text\<rparr>]
       \<and> active_chat (fst (handle_chat_submission e prompt_text s)) = active_chat s
       \<and> (\<forall>k. k \<noteq> active_chat s \<longrightarrow>
             map_of (chats (fst (handle_chat_submission e prompt_text s))) k = map_of (chats s) k)"
proof (cases "is_default_title (chat_titles s) (active_chat s)")
  case True
  show ?thesis
    by (simp add: submission_success_retitle[OF assms True] get_active_chat_history_def
          AList.update_conv')
next
  case False
  show ?thesis
    by (simp add: submission_success_keep[OF assms False] get_active_chat_history_def
          AList.update_conv')
qed

theorem submission_success_two_turns_witness:
  "ustr ''Hello'' \<noteq> []
   \<and> generate_content (const_env (Inr (ustr ''Hi there'')) (Inr (ustr ''Greeting'')))
       (api_history_of (get_active_chat_history init_state @
          [\<lparr>role = User, content = ustr ''Hello''\<rparr>])) = Inr (ustr ''Hi there'')
   \<and> get_active_chat_history (fst (handle_chat_submission
         (const_env (Inr (ustr ''Hi there'')) (Inr (ustr ''Greeting''))) (ustr ''Hello'') init_state))
       = [greeting, \<lparr>role = User, content = ustr ''Hello''\<rparr>,
          \<lparr>role = Model, content = ustr ''Hi there''\<rparr>]"
proof -
  let ?e = "const_env (Inr (ustr ''Hi there'')) (Inr (ustr ''Greeting''))"
  have h1: "ustr ''Hello'' \<noteq> []" by (simp add: ustr_def)
  have h2: "generate_content ?e (api_history_of (get_active_chat_history init_state @
          [\<lparr>role = User, content = ustr ''Hello''\<rparr>])) = Inr (ustr ''Hi there'')"
    by (simp add: const_env_def)
  have g: "get_active_chat_history init_state = [greeting]"
    by (simp add: get_active_chat_history_def init_state_def)
  show ?thesis using h1 h2 submission_success_two_turns[OF h1 h2] by (simp add: g)
qed

text \<open>
  C3. For a non-empty prompt whose completion call fails, the history written back under
  the active identifier is the old history, the user turn, and one model turn whose content
  is "Error: An error occurred: " followed by the cause. The title model is not called, no
  title changes, the other threads are untouched, and the handler ends as on success, with
  the pending input cleared and a rerun.
\<close>

theorem submission_failure_error_turn:
  assumes "prompt_text \<noteq> []"
    and "generate_content e (api_history_of
           (get_active_chat_history s @ [\<lparr>role = User, content = prompt_text\<rparr>])) = Inl cause"
  shows "map_of (chats (fst (handle_chat_submission e prompt_text s))) (active_chat s) =
           Some (get_active_chat_history s @
             [\<lparr>role = User, content = prompt_text\<rparr>,
              \<lparr>role = Model, content = ustr ''Error: An error occurred: '' @ cause\<rparr>])
       \<and> (\<forall>k. k \<noteq> active_chat s \<longrightarrow>
             map_of (chats (fst (handle_chat_submission e prompt_text s))) k = map_of (chats s) k)
       \<and> active_chat (fst (handle_chat_submission e prompt_text s)) = active_chat s
       \<and> chat_titles (fst (handle_chat_submission e prompt_text s)) = chat_titles s
       \<and> user_input (fst (handle_chat_submission e prompt_text s)) = []
       \<and> filter is_title_call (snd (handle_chat_submission e prompt_text s)) = []
       \<and> St_error (ustr ''An error occurred: '' @ cause)
           \<in> set (snd (handle_chat_submission e prompt_text s))
       \<and> last (snd (handle_chat_submission e prompt_text s)) = Rerun"
  by (simp add: submission_failure[OF assms] AList.update_conv' ustr_def)

theorem submission_failure_error_turn_witness:
  "ustr ''Hello'' \<noteq> []
   \<and> generate_content (const_env (Inl (ustr ''quota exceeded'')) (Inr (ustr ''Greeting'')))
       (api_history_of (get_active_chat_history init_state @
          [\<lparr>role = User, content = ustr ''Hello''\<rparr>])) = Inl (ustr ''quota exceeded'')
   \<and> map_of (chats (fst (handle_chat_submission
         (const_env (Inl (ustr ''quota exceeded'')) (Inr (ustr ''Greeting'')))
         (ustr ''Hello'') init_state))) (ustr ''Chat 1'')
       = Some [greeting, \<lparr>role = User, content = ustr ''Hello''\<rparr>,
               \<lparr>role = Model, content = ustr ''Error: An error occurred: quota exceeded''\<rparr>]
   \<and> filter is_title_call (snd (handle_chat_submission
         (const_env (Inl (ustr ''quota exceeded'')) (Inr (ustr ''Greeting'')))
         (ustr ''Hello'') init_state)) = []"
proof -
  let ?e = "const_env (Inl (ustr ''quota exceeded'')) (Inr (ustr ''Greeting''))"
  have h1: "ustr ''Hello'' \<noteq> []" by (simp add: ustr_def)
  have h2: "generate_content ?e (api_history_of (get_active_chat_history init_state @
          [\<lparr>role = User, content = ustr ''Hello''\<rparr>])) = Inl (ustr ''quota exceeded'')"
    by (simp add: const_env_def)
  have g: "get_active_chat_history init_state = [greeting]"
    by (simp add: get_active_chat_history_def init_state_def)
  have a: "active_chat init_state = ustr ''Chat 1''" by (simp add: init_state_def)
  have u: "ustr ''Error: An error occurred: '' @ ustr ''quota exceeded''
             = ustr ''Error: An error occurred: quota exceeded''"
    by (simp add: ustr_def)
  show ?thesis
    using h1 h2 submission_failure_error_turn[OF h1 h2] by (simp add: g a u)
qed


section \<open>Titles\<close>

text \<open>
  C8, as the specification words it, fails: the code trims the returned text before it takes
  the first line, so a response that starts with a line break still yields a title, where
  the first line of the returned text itself is empty.
\<close>

theorem sanitize_title_first_line_counterexample:
  "sanitize_title (10 # ustr ''Hello'') = Some (ustr ''Hello'')
   \<and> spec_sanitize_title (10 # ustr ''Hello'') = []
   \<and> sanitize_title (10 # ustr ''Hello'') \<noteq> Some (spec_sanitize_title (10 # ustr ''Hello''))"
  by (simp add: sanitize_title_def spec_sanitize_title_def py_strip_def py_remove_def
        isspace_def ustr_def)

text \<open>
  C8, amended. When the title model returns a text, the title is obtained from it by
  trimming surrounding whitespace, taking the first line of what is left, removing every
  asterisk and every double quote, trimming again and keeping at most 50 code points; so it
  has at most 50 code points and contains neither character. The response
  \<^verbatim>\<open>**"Weekend Trip Plans"**\<close>, line break, \<^verbatim>\<open>Extra line\<close> gives "Weekend Trip Plans".
\<close>

theorem sanitize_title_steps:
  assumes "title_generate_content e (title_request text_content original_prompt) = Inr response_text"
  shows "fst (generate_title_from_summary e text_content original_prompt) =
           take 50 (py_strip (py_remove 34 (py_remove 42
             (takeWhile (\<lambda>c. c \<noteq> 10) (py_strip response_text)))))
       \<and> length (fst (generate_title_from_summary e text_content original_prompt)) \<le> 50
       \<and> 42 \<notin> set (fst (generate_title_from_summary e text_content original_prompt))
       \<and> 34 \<notin> set (fst (generate_title_from_summary e text_content original_prompt))
       \<and> sanitize_title ([42, 42, 34] @ ustr ''Weekend Trip Plans'' @ [34, 42, 42, 10] @
            ustr ''Extra line'') = Some (ustr ''Weekend Trip Plans'')"
proof -
  let ?r = "take 50 (py_strip (py_remove 34 (py_remove 42
             (takeWhile (\<lambda>c. c \<noteq> 10) (py_strip response_text)))))"
  have s: "sanitize_title response_text = Some ?r" by (rule sanitize_title_eq)
  have t: "fst (generate_title_from_summary e text_content original_prompt) = ?r"
    using assms by (simp add: generate_title_from_summary_def s)
  have x: "sanitize_title ([42, 42, 34] @ ustr ''Weekend Trip Plans'' @ [34, 42, 42, 10] @
            ustr ''Extra line'') = Some (ustr ''Weekend Trip Plans'')"
    by (simp add: sanitize_title_def py_strip_def py_remove_def isspace_def ustr_def)
  show ?thesis using sanitize_title_chars[OF s] t x by simp
qed

theorem sanitize_title_steps_witness:
  "title_generate_content
      (const_env (Inr (ustr ''Sure'')) (Inr ([32, 42] @ ustr ''Trip'' @ [42, 10] @ ustr ''more'')))
      (title_request (ustr ''Sure'') (ustr ''Plan a trip''))
     = Inr ([32, 42] @ ustr ''Trip'' @ [42, 10] @ ustr ''more'')
   \<and> fst (generate_title_from_summary
        (const_env (Inr (ustr ''Sure'')) (Inr ([32, 42] @ ustr ''Trip'' @ [42, 10] @ ustr ''more'')))
        (ustr ''Sure'') (ustr ''Plan a trip'')) = ustr ''Trip''"
proof -
  let ?t = "[32, 42] @ ustr ''Trip'' @ [42, 10] @ ustr ''more''"
  let ?e = "const_env (Inr (ustr ''Sure'')) (Inr ?t)"
  have h: "title_generate_content ?e (title_request (ustr ''Sure'') (ustr ''Plan a trip'')) = Inr ?t"
    by (simp add: const_env_def)
  have v: "take 50 (py_strip (py_remove 34 (py_remove 42
             (takeWhile (\<lambda>c. c \<noteq> 10) (py_strip ?t))))) = ustr ''Trip''"
    by (simp add: py_strip_def py_remove_def isspace_def ustr_def)
  have r: "fst (generate_title_from_summary ?e (ustr ''Sure'') (ustr ''Plan a trip''))
             = ustr ''Trip''"
    using sanitize_title_steps[OF h, THEN conjunct1] by (simp only: v)
  show ?thesis using h r by simp
qed

text \<open>
  C9. When the call of the title model fails, the title is the first five
  whitespace-separated words of the prompt, joined by single spaces and followed by "...",
  for a non-empty prompt, and "New Chat" for the empty one. The words are the non-empty
  pieces without whitespace that make up the prompt. The enclosing submission goes on: the
  reply is stored, the fallback becomes the title, the user sees a warning and no error.
\<close>

theorem title_fallback_on_failure:
  assumes "title_generate_content e (title_request text_content original_prompt) = Inl cause"
  shows "fst (generate_title_from_summary e text_content original_prompt) =
           (if original_prompt \<noteq> []
            then py_join (ustr '' '') (take 5 (py_split_ws original_prompt)) @ ustr ''...''
            else ustr ''New Chat'')
       \<and> (\<forall>w\<in>set (py_split_ws original_prompt). w \<noteq> [] \<and> (\<forall>c\<in>set w. \<not> isspace c))
       \<and> concat (py_split_ws original_prompt) = filter (\<lambda>c. \<not> isspace c) original_prompt
       \<and> (original_prompt \<noteq> [] \<longrightarrow>
          generate_content e (api_history_of (get_active_chat_history s @
            [\<lparr>role = User, content = original_prompt\<rparr>])) = Inr text_content \<longrightarrow>
          is_default_title (chat_titles s) (active_chat s) \<longrightarrow>
            map_of (chats (fst (handle_chat_submission e original_prompt s))) (active_chat s) =
              Some (get_active_chat_history s @
                [\<lparr>role = User, content = original_prompt\<rparr>,
                 \<lparr>role = Model, content = text_content\<rparr>])
          \<and> map_of (chat_titles (fst (handle_chat_submission e original_prompt s))) (active_chat s)
              = Some (fallback_title original_prompt)
          \<and> snd (handle_chat_submission e original_prompt s) =
              [Model_call (api_history_of (get_active_chat_history s @
                 [\<lparr>role = User, content = original_prompt\<rparr>])),
               Title_model_call (title_request text_content original_prompt),
               St_warning (ustr ''Could not generate title automatically: '' @ cause),
               Rerun])"
proof -
  have f: "generate_title_from_summary e text_content original_prompt =
           (fallback_title original_prompt,
            [Title_model_call (title_request text_content original_prompt),
             St_warning (ustr ''Could not generate title automatically: '' @ cause)])"
    by (rule title_effects_failure[OF assms])
  have a: "fst (generate_title_from_summary e text_content original_prompt) =
           (if original_prompt \<noteq> []
            then py_join (ustr '' '') (take 5 (py_split_ws original_prompt)) @ ustr ''...''
            else ustr ''New Chat'')"
    by (simp add: f fallback_title_def)
  have b: "\<forall>w\<in>set (py_split_ws original_prompt). w \<noteq> [] \<and> (\<forall>c\<in>set w. \<not> isspace c)"
    using split_ws_from_words[of "[]" original_prompt] by (simp add: py_split_ws_def)
  have c: "concat (py_split_ws original_prompt) = filter (\<lambda>c. \<not> isspace c) original_prompt"
    by (simp add: py_split_ws_def concat_split_ws_from)
  have d: "map_of (chats (fst (handle_chat_submission e original_prompt s))) (active_chat s) =
              Some (get_active_chat_history s @
                [\<lparr>role = User, content = original_prompt\<rparr>,
                 \<lparr>role = Model, content = text_content\<rparr>])
          \<and> map_of (chat_titles (fst (handle_chat_submission e original_prompt s))) (active_chat s)
              = Some (fallback_title original_prompt)
          \<and> snd (handle_chat_submission e original_prompt s) =
              [Model_call (api_history_of (get_active_chat_history s @
                 [\<lparr>role = User, content = original_prompt\<rparr>])),
               Title_model_call (title_request text_content original_prompt),
               St_warning (ustr ''Could not generate title automatically: '' @ cause),
               Rerun]"
    if "original_prompt \<noteq> []"
      and "generate_content e (api_history_of (get_active_chat_history s @
            [\<lparr>role = User, content = original_prompt\<rparr>])) = Inr text_content"
      and "is_default_title (chat_titles s) (active_chat s)"
    by (simp add: submission_success_retitle[OF that] f AList.update_conv')
  show ?thesis using a b c d by blast
qed

theorem title_fallback_on_failure_witness:
  "title_generate_content (const_env (Inr (ustr ''Sure'')) (Inl (ustr ''quota'')))
      (title_request (ustr ''Sure'') (ustr ''How do I bake sourdough bread at home''))
     = Inl (ustr ''quota'')
   \<and> ustr ''How do I bake sourdough bread at home'' \<noteq> []
   \<and> generate_content (const_env (Inr (ustr ''Sure'')) (Inl (ustr ''quota'')))
        (api_history_of (get_active_chat_history init_state @
           [\<lparr>role = User, content = ustr ''How do I bake sourdough bread at home''\<rparr>]))
       = Inr (ustr ''Sure'')
   \<and> is_default_title (chat_titles init_state) (active_chat init_state)
   \<and> fst (generate_title_from_summary (const_env (Inr (ustr ''Sure'')) (Inl (ustr ''quota'')))
        (ustr ''Sure'') (ustr ''How do I bake sourdough bread at home''))
       = ustr ''How do I bake sourdough...''
   \<and> map_of (chat_titles (fst (handle_chat_submission
        (const_env (Inr (ustr ''Sure'')) (Inl (ustr ''quota'')))
        (ustr ''How do I bake sourdough bread at home'') init_state))) (active_chat init_state)
       = Some (ustr ''How do I bake sourdough...'')"
proof -
  let ?e = "const_env (Inr (ustr ''Sure'')) (Inl (ustr ''quota''))"
  let ?p = "ustr ''How do I bake sourdough bread at home''"
  have h1: "title_generate_content ?e (title_request (ustr ''Sure'') ?p) = Inl (ustr ''quota'')"
    by (simp add: const_env_def)
  have h2: "?p \<noteq> []" by (simp add: ustr_def)
  have h3: "generate_content ?e (api_history_of (get_active_chat_history init_state @
           [\<lparr>role = User, content = ?p\<rparr>])) = Inr (ustr ''Sure'')"
    by (simp add: const_env_def)
  have h4: "is_default_title (chat_titles init_state) (active_chat init_state)"
    by (simp add: is_default_title_def init_state_def)
  have v: "py_join (ustr '' '') (take 5 (py_split_ws ?p)) @ ustr ''...''
             = ustr ''How do I bake sourdough...''"
    by (simp add: ustr_def py_split_ws_def isspace_def)
  have w: "fallback_title ?p = ustr ''How do I bake sourdough...''"
    by (simp add: fallback_title_def v h2)
  show ?thesis
    using h1 h2 h3 h4 title_fallback_on_failure[OF h1, of init_state] by (simp add: v w)
qed


section \<open>One run of the script, case by case\<close>

lemma delete_chat_known_reruns:
  "chat_id \<in> set (map fst (chats s)) \<Longrightarrow> snd (delete_chat chat_id s) = [Rerun]"
  by (simp add: delete_chat_def Let_def)

lemma sidebar_rows_select:
  "sidebar_rows (Select_clicked k) ids s =
     (if k \<in> set ids then Some (s\<lparr>active_chat := k\<rparr>, [Rerun]) else None)"
  by (induction ids) auto

lemma sidebar_rows_delete:
  "sidebar_rows (Delete_clicked k) ids s =
     (if k \<in> set ids \<and> k \<in> set (map fst (chats s)) then Some (delete_chat k s) else None)"
proof (induction ids)
  case Nil
  then show ?case by simp
next
  case (Cons i ids)
  show ?case
  proof (cases "k \<in> set (map fst (chats s))")
    case True
    obtain s' where d: "delete_chat k s = (s', [Rerun])"
      using delete_chat_known_reruns[OF True] by (cases "delete_chat k s") auto
    show ?thesis
    proof (cases "i = k")
      case same: True
      then show ?thesis using True by (simp add: d)
    next
      case False
      then show ?thesis using True Cons.IH by auto
    qed
  next
    case False
    then have d: "delete_chat k s = (s, [])" by (simp add: delete_chat_def)
    show ?thesis
    proof (cases "i = k")
      case True
      then show ?thesis using False Cons.IH by (simp add: d)
    next
      case differ: False
      then show ?thesis using False Cons.IH by auto
    qed
  qed
qed

lemma sidebar_rows_other:
  "(\<forall>k. ev \<noteq> Select_clicked k) \<Longrightarrow> (\<forall>k. ev \<noteq> Delete_clicked k) \<Longrightarrow>
   sidebar_rows ev ids s = None"
  by (induction ids) auto

lemma set_sorted_chat_ids: "set (sorted_chat_ids s) = set (map fst (chats s))"
  by (simp add: sorted_chat_ids_def)

lemma script_run_new: "script_run e New_chat_clicked s = new_chat s"
  by (simp add: script_run_def)

lemma script_run_select:
  "k \<in> set (map fst (chats s)) \<Longrightarrow>
   script_run e (Select_clicked k) s = (s\<lparr>active_chat := k\<rparr>, [Rerun])"
  using set_sorted_chat_ids[of s] by (simp add: script_run_def sidebar_rows_select)

lemma script_run_delete:
  "k \<in> set (map fst (chats s)) \<Longrightarrow> script_run e (Delete_clicked k) s = delete_chat k s"
  using set_sorted_chat_ids[of s] by (simp add: script_run_def sidebar_rows_delete)

lemma script_run_input:
  "p \<noteq> [] \<Longrightarrow>
   script_run e (Chat_input p) s = handle_chat_submission e p (s\<lparr>user_input := p\<rparr>)"
  by (simp add: script_run_def sidebar_rows_other)

text \<open>
  Every run is one of five things: a new chat, a selection or a deletion of a thread that
  exists, a submission of a non-empty text, or nothing at all.
\<close>

lemma script_run_cases:
  obtains
    (new) "ev = New_chat_clicked" "script_run e ev s = new_chat s"
  | (select) k where "ev = Select_clicked k" "k \<in> set (map fst (chats s))"
      "script_run e ev s = (s\<lparr>active_chat := k\<rparr>, [Rerun])"
  | (delete) k where "ev = Delete_clicked k" "k \<in> set (map fst (chats s))"
      "script_run e ev s = delete_chat k s"
  | (submit) p where "p \<noteq> []" "ev \<noteq> New_chat_clicked"
      "script_run e ev s = handle_chat_submission e p (s\<lparr>user_input := p\<rparr>)"
  | (idle) "ev \<noteq> New_chat_clicked" "script_run e ev s = (s, [])"
proof (cases ev)
  case No_event
  have n: "sidebar_rows ev (sorted_chat_ids s) s = None"
    using No_event by (simp add: sidebar_rows_other)
  show ?thesis
  proof (cases "user_input s = []")
    case True
    then have "script_run e ev s = (s, [])" using No_event n by (simp add: script_run_def)
    then show ?thesis using idle No_event by simp
  next
    case False
    have "script_run e ev s = handle_chat_submission e (user_input s) (s\<lparr>user_input := user_input s\<rparr>)"
      using No_event n False by (simp add: script_run_def)
    then show ?thesis using submit[of "user_input s"] False No_event by simp
  qed
next
  case New_chat_clicked
  then show ?thesis using new by (simp add: script_run_new)
next
  case (Select_clicked k)
  show ?thesis
  proof (cases "k \<in> set (map fst (chats s))")
    case True
    then show ?thesis using select[of k] Select_clicked by (simp add: script_run_select)
  next
    case False
    then have n: "sidebar_rows ev (sorted_chat_ids s) s = None"
      using Select_clicked by (simp add: sidebar_rows_select set_sorted_chat_ids)
    show ?thesis
    proof (cases "user_input s = []")
      case True
      then have "script_run e ev s = (s, [])"
        using Select_clicked n by (simp add: script_run_def)
      then show ?thesis using idle Select_clicked by simp
    next
      case False
      have "script_run e ev s =
              handle_chat_submission e (user_input s) (s\<lparr>user_input := user_input s\<rparr>)"
        using Select_clicked n False by (simp add: script_run_def)
      then show ?thesis using submit[of "user_input s"] False Select_clicked by simp
    qed
  qed
next
  case (Delete_clicked k)
  show ?thesis
  proof (cases "k \<in> set (map fst (chats s))")
    case True
    then show ?thesis using delete[of k] Delete_clicked by (simp add: script_run_delete)
  next
    case False
    then have n: "sidebar_rows ev (sorted_chat_ids s) s = None"
      using Delete_clicked by (simp add: sidebar_rows_delete)
    show ?thesis
    proof (cases "user_input s = []")
      case True
      then have "script_run e ev s = (s, [])"
        using Delete_clicked n by (simp add: script_run_def)
      then show ?thesis using idle Delete_clicked by simp
    next
      case nonempty: False
      have "script_run e ev s =
              handle_chat_submission e (user_input s) (s\<lparr>user_input := user_input s\<rparr>)"
        using Delete_clicked n nonempty by (simp add: script_run_def)
      then show ?thesis using submit[of "user_input s"] nonempty Delete_clicked by simp
    qed
  qed
next
  case (Chat_input p)
  have n: "sidebar_rows ev (sorted_chat_ids s) s = None"
    using Chat_input by (simp add: sidebar_rows_other)
  show ?thesis
  proof (cases "p = []")
    case True
    show ?thesis
    proof (cases "user_input s = []")
      case empty: True
      have "script_run e ev s = (s, [])"
        using Chat_input n True empty by (simp add: script_run_def)
      then show ?thesis using idle Chat_input by simp
    next
      case False
      have "script_run e ev s =
              handle_chat_submission e (user_input s) (s\<lparr>user_input := user_input s\<rparr>)"
        using Chat_input n True False by (simp add: script_run_def)
      then show ?thesis using submit[of "user_input s"] False Chat_input by simp
    qed
  next
    case False
    then show ?thesis using submit[of p] Chat_input by (simp add: script_run_input)
  qed
qed


section \<open>The shape of the state after each operation\<close>

lemma new_chat_state:
  "fst (new_chat s) =
     s\<lparr>chat_counter := chat_counter s + 1,
       chats := AList.update (chat_id_of (chat_counter s + 1)) [greeting] (chats s),
       chat_titles := AList.update (chat_id_of (chat_counter s + 1))
                        (chat_id_of (chat_counter s + 1)) (chat_titles s),
       active_chat := chat_id_of (chat_counter s + 1)\<rparr>"
  by (simp add: new_chat_def Let_def)

lemma new_chat_effects: "snd (new_chat s) = [Rerun]"
  by (simp add: new_chat_def Let_def)

lemma delete_chat_effects: "filter is_title_call (snd (delete_chat k s)) = []"
  by (simp add: delete_chat_def Let_def)

lemma submission_shape:
  obtains
    (unchanged) "handle_chat_submission e p s = (s, [])"
  | (stored) h where
      "fst (handle_chat_submission e p s) =
         s\<lparr>chats := AList.update (active_chat s) h (chats s), user_input := []\<rparr>"
      "filter is_title_call (snd (handle_chat_submission e p s)) = []"
  | (retitled) h t where
      "is_default_title (chat_titles s) (active_chat s)"
      "fst (handle_chat_submission e p s) =
         s\<lparr>chat_titles := AList.update (active_chat s) t (chat_titles s),
           chats := AList.update (active_chat s) h (chats s), user_input := []\<rparr>"
proof (cases "p = []")
  case True
  then show ?thesis using unchanged by (simp add: submission_empty)
next
  case False
  show ?thesis
  proof (cases "generate_content e (api_history_of
           (get_active_chat_history s @ [\<lparr>role = User, content = p\<rparr>]))")
    case (Inl cause)
    show ?thesis
      by (rule stored) (simp_all add: submission_failure[OF False Inl])
  next
    case (Inr reply_text)
    show ?thesis
    proof (cases "is_default_title (chat_titles s) (active_chat s)")
      case True
      show ?thesis
        by (rule retitled[OF True]) (simp add: submission_success_retitle[OF False Inr True])
    next
      case no: False
      show ?thesis
        by (rule stored) (simp_all add: submission_success_keep[OF False Inr no])
    qed
  qed
qed

lemma keys_update_known:
  "k \<in> set (map fst al) \<Longrightarrow> map fst (AList.update k v al) = map fst al"
  by (simp add: AList.update_keys)

lemma keys_delete: "set (map fst (AList.delete k al)) = set (map fst al) - {k}"
  by (simp add: AList.delete_keys)

section \<open>The active identifier is a key\<close>

lemma new_chat_active_known: "active_known (fst (new_chat s))"
  by (simp add: new_chat_state active_known_def AList.update_keys)

lemma delete_chat_active_known:
  assumes "active_known s"
  shows "active_known (fst (delete_chat k s))"
proof (cases "k \<in> set (map fst (chats s))")
  case False
  then show ?thesis using assms by (simp add: delete_chat_def)
next
  case True
  show ?thesis
  proof (cases "k = active_chat s")
    case differ: False
    then have "active_chat s \<in> set (map fst (AList.delete k (chats s)))"
      using assms unfolding keys_delete active_known_def by simp
    then show ?thesis using True differ
      by (simp add: delete_chat_def Let_def active_known_def)
  next
    case same: True
    show ?thesis
    proof (cases "AList.delete k (chats s)")
      case Nil
      then show ?thesis using True same
        by (simp add: delete_chat_def Let_def active_known_def)
    next
      case (Cons p rest)
      then show ?thesis using True same
        by (cases p) (simp add: delete_chat_def Let_def active_known_def)
    qed
  qed
qed

lemma submission_active_known:
  assumes "active_known s"
  shows "active_known (fst (handle_chat_submission e p s))"
proof (cases rule: submission_shape[of e p s])
  case unchanged
  then show ?thesis using assms by simp
next
  case (stored h)
  then show ?thesis by (simp add: active_known_def AList.update_keys)
next
  case (retitled h t)
  then show ?thesis by (simp add: active_known_def AList.update_keys)
qed

lemma script_run_active_known:
  assumes "active_known s"
  shows "active_known (fst (script_run e ev s))"
proof (cases rule: script_run_cases[of ev e s])
  case new
  then show ?thesis by (simp add: new_chat_active_known)
next
  case (select k)
  then show ?thesis by (simp add: active_known_def)
next
  case (delete k)
  then show ?thesis using delete_chat_active_known[OF assms] by simp
next
  case (submit p)
  have "active_known (s\<lparr>user_input := p\<rparr>)" using assms by (simp add: active_known_def)
  then show ?thesis using submit submission_active_known by simp
next
  case idle
  then show ?thesis using assms by simp
qed

lemma init_active_known: "active_known init_state"
  by (simp add: active_known_def init_state_def)

lemma run_session_active_known:
  "active_known s \<Longrightarrow> active_known (run_session runs s)"
proof (induction runs arbitrary: s)
  case Nil
  then show ?case by simp
next
  case (Cons r runs)
  obtain e ev where r: "r = (e, ev)" by (cases r)
  show ?case using Cons.IH[OF script_run_active_known[OF Cons.prems]] by (simp add: r)
qed

text \<open>
  C6. In every state a session reaches from the initial one, whatever the events and the
  answers of the models, the active identifier is a key of \<^verbatim>\<open>chats\<close>; and one run of the
  script, for any event, takes a state with that property to a state with that property.
\<close>

theorem active_chat_always_key:
  "active_chat (run_session runs init_state)
     \<in> set (map fst (chats (run_session runs init_state)))
   \<and> (active_chat s \<in> set (map fst (chats s)) \<longrightarrow>
        active_chat (fst (script_run e ev s)) \<in> set (map fst (chats (fst (script_run e ev s)))))"
  using run_session_active_known[OF init_active_known, of runs] script_run_active_known[of s e ev]
  by (simp add: active_known_def)

theorem active_chat_always_key_witness:
  "active_chat init_state \<in> set (map fst (chats init_state))
   \<and> active_chat (fst (script_run (const_env (Inr []) (Inr [])) (Delete_clicked (ustr ''Chat 1''))
        init_state))
     \<in> set (map fst (chats (fst (script_run (const_env (Inr []) (Inr []))
          (Delete_clicked (ustr ''Chat 1'')) init_state))))"
proof -
  have h: "active_chat init_state \<in> set (map fst (chats init_state))"
    by (simp add: init_state_def)
  show ?thesis
    using h active_chat_always_key[of "[]" init_state "const_env (Inr []) (Inr [])"
        "Delete_clicked (ustr ''Chat 1'')"]
    by blast
qed


section \<open>The two dictionaries have the same keys\<close>

lemma keys_agree_sets:
  "keys_agree s \<Longrightarrow> set (map fst (chats s)) = set (map fst (chat_titles s))"
  by (simp only: keys_agree_def)

lemma new_chat_keys_agree: "keys_agree s \<Longrightarrow> keys_agree (fst (new_chat s))"
  by (simp add: new_chat_state keys_agree_def AList.update_keys)

lemma delete_chat_keys_agree:
  assumes "keys_agree s"
  shows "keys_agree (fst (delete_chat k s))"
proof (cases "k \<in> set (map fst (chats s))")
  case False
  then show ?thesis using assms by (simp add: delete_chat_def)
next
  case True
  have t: "k \<in> set (map fst (chat_titles s))"
    using True keys_agree_sets[OF assms] by blast
  have d: "map fst (AList.delete k (chats s)) = map fst (AList.delete k (chat_titles s))"
    using assms by (simp add: keys_agree_def AList.delete_keys)
  show ?thesis
  proof (cases "k = active_chat s")
    case differ: False
    then show ?thesis using True t d by (simp add: delete_chat_def Let_def keys_agree_def)
  next
    case same: True
    show ?thesis
    proof (cases "AList.delete k (chats s)")
      case Nil
      then have "AList.delete k (chat_titles s) = []" using d by simp
      then show ?thesis using True t same Nil
        by (simp add: delete_chat_def Let_def keys_agree_def)
    next
      case (Cons p rest)
      then show ?thesis using True t same d
        by (cases p) (simp add: delete_chat_def Let_def keys_agree_def)
    qed
  qed
qed

lemma submission_keys_agree:
  assumes "keys_agree s" and "active_known s"
  shows "keys_agree (fst (handle_chat_submission e p s))"
proof -
  have c: "active_chat s \<in> set (map fst (chats s))"
    using assms(2) by (simp add: active_known_def)
  then have t: "active_chat s \<in> set (map fst (chat_titles s))"
    using keys_agree_sets[OF assms(1)] by blast
  show ?thesis
  proof (cases rule: submission_shape[of e p s])
    case unchanged
    then show ?thesis using assms by simp
  next
    case (stored h)
    then show ?thesis using assms(1) c
      by (simp add: keys_agree_def keys_update_known del: map_eq_conv)
  next
    case (retitled h t')
    then show ?thesis using assms(1) c t
      by (simp add: keys_agree_def keys_update_known del: map_eq_conv)
  qed
qed

lemma script_run_keys_agree:
  assumes "keys_agree s" and "active_known s"
  shows "keys_agree (fst (script_run e ev s))"
proof (cases rule: script_run_cases[of ev e s])
  case new
  then show ?thesis using new_chat_keys_agree[OF assms(1)] by simp
next
  case (select k)
  then show ?thesis using assms(1) by (simp add: keys_agree_def)
next
  case (delete k)
  then show ?thesis using delete_chat_keys_agree[OF assms(1)] by simp
next
  case (submit p)
  have "keys_agree (s\<lparr>user_input := p\<rparr>)" and "active_known (s\<lparr>user_input := p\<rparr>)"
    using assms by (simp_all add: keys_agree_def active_known_def)
  then show ?thesis using submit submission_keys_agree by simp
next
  case idle
  then show ?thesis using assms(1) by simp
qed

lemma run_session_keys_agree:
  "keys_agree s \<Longrightarrow> active_known s \<Longrightarrow> keys_agree (run_session runs s)"
proof (induction runs arbitrary: s)
  case Nil
  then show ?case by simp
next
  case (Cons r runs)
  obtain e ev where r: "r = (e, ev)" by (cases r)
  have "keys_agree (fst (script_run e ev s))"
    by (rule script_run_keys_agree[OF Cons.prems])
  moreover have "active_known (fst (script_run e ev s))"
    by (rule script_run_active_known[OF Cons.prems(2)])
  ultimately show ?case using Cons.IH by (simp add: r)
qed

lemma init_keys_agree: "keys_agree init_state"
  by (simp add: keys_agree_def init_state_def)

text \<open>
  C5. After every sequence of events from the initial state (creations and deletions, and
  selections and submissions as well), \<^verbatim>\<open>chats\<close> and \<^verbatim>\<open>chat_titles\<close> have the same set
  of keys; they even list them in the same order.
\<close>

theorem keys_of_chats_and_titles_equal:
  "set (map fst (chats (run_session runs init_state)))
     = set (map fst (chat_titles (run_session runs init_state)))
   \<and> map fst (chats (run_session runs init_state))
     = map fst (chat_titles (run_session runs init_state))"
  using run_session_keys_agree[OF init_keys_agree init_active_known, of runs]
  by (simp add: keys_agree_def del: map_eq_conv)


section \<open>Identifiers and the counter\<close>

lemma str_nat_nonempty: "str_nat n \<noteq> []"
  by (subst str_nat.simps) simp

lemma str_nat_digits: "\<forall>c\<in>set (str_nat n). 48 \<le> c \<and> c \<le> 57"
proof (induction n rule: str_nat.induct)
  case (1 n)
  show ?case
  proof (cases "n < 10")
    case True
    then show ?thesis by (subst str_nat.simps) simp
  next
    case False
    have "n mod 10 < 10" by simp
    then have "48 + n mod 10 \<le> 57" by linarith
    then show ?thesis using False 1 by (subst str_nat.simps) auto
  qed
qed

lemma str_nat_inj: "str_nat m = str_nat n \<Longrightarrow> m = n"
proof (induction m arbitrary: n rule: str_nat.induct)
  case (1 m)
  show ?case
  proof (cases "m < 10")
    case small: True
    show ?thesis
    proof (cases "n < 10")
      case True
      then show ?thesis using "1.prems" small
        by (simp add: str_nat.simps[of m] str_nat.simps[of n])
    next
      case False
      then show ?thesis using "1.prems" small str_nat_nonempty[of "n div 10"]
        by (simp add: str_nat.simps[of m] str_nat.simps[of n] Cons_eq_append_conv)
    qed
  next
    case big: False
    show ?thesis
    proof (cases "n < 10")
      case True
      then show ?thesis using "1.prems" big str_nat_nonempty[of "m div 10"]
        by (simp add: str_nat.simps[of m] str_nat.simps[of n] append_eq_Cons_conv)
    next
      case False
      have "str_nat (m div 10) @ [48 + m mod 10] = str_nat (n div 10) @ [48 + n mod 10]"
        using "1.prems" big False by (simp add: str_nat.simps[of m] str_nat.simps[of n])
      then have q: "str_nat (m div 10) = str_nat (n div 10)" and r: "m mod 10 = n mod 10"
        by simp_all
      have "m div 10 = n div 10" using "1.IH"[OF big q] .
      then show ?thesis using r by (metis div_mult_mod_eq)
    qed
  qed
qed

lemma str_int_inj: "str_int a = str_int b \<Longrightarrow> a = b"
proof -
  assume eq: "str_int a = str_int b"
  have no_minus: "\<And>n ds. str_nat n \<noteq> 45 # ds"
  proof
    fix n ds assume "str_nat n = 45 # ds"
    then have "45 \<in> set (str_nat n)" by simp
    then show False using str_nat_digits[of n] by auto
  qed
  show "a = b"
  proof (cases "a < 0")
    case an: True
    show ?thesis
    proof (cases "b < 0")
      case True
      then have "str_nat (nat (- a)) = str_nat (nat (- b))"
        using eq an by (simp add: str_int_def)
      then have "nat (- a) = nat (- b)" by (rule str_nat_inj)
      then show ?thesis using an True by linarith
    next
      case False
      then have "str_nat (nat b) = 45 # str_nat (nat (- a))"
        using eq an by (simp add: str_int_def)
      then show ?thesis using no_minus by blast
    qed
  next
    case ap: False
    show ?thesis
    proof (cases "b < 0")
      case True
      then have "str_nat (nat a) = 45 # str_nat (nat (- b))"
        using eq ap by (simp add: str_int_def)
      then show ?thesis using no_minus by blast
    next
      case False
      then have "str_nat (nat a) = str_nat (nat b)"
        using eq ap by (simp add: str_int_def)
      then have "nat a = nat b" by (rule str_nat_inj)
      then show ?thesis using ap False by linarith
    qed
  qed
qed

lemma chat_id_of_inj: "chat_id_of m = chat_id_of n \<Longrightarrow> m = n"
  by (simp add: chat_id_of_def str_int_inj)

lemma chat_id_of_1: "chat_id_of 1 = ustr ''Chat 1''"
  by (simp add: chat_id_of_def str_int_def str_nat.simps ustr_def)

lemma new_chat_counter: "chat_counter (fst (new_chat s)) = chat_counter s + 1"
  by (simp add: new_chat_state)

lemma deletes_last_chat_iff:
  "deletes_last_chat (Delete_clicked k) s \<longleftrightarrow>
     k \<in> set (map fst (chats s)) \<and> k = active_chat s \<and> AList.delete k (chats s) = []"
  by (simp only: deletes_last_chat_def ui_event.case)

lemma delete_chat_counter:
  assumes "\<not> deletes_last_chat (Delete_clicked k) s"
  shows "chat_counter (fst (delete_chat k s)) = chat_counter s"
proof (cases "k \<in> set (map fst (chats s))")
  case False
  then show ?thesis by (simp add: delete_chat_def)
next
  case True
  show ?thesis
  proof (cases "k = active_chat s")
    case differ: False
    then show ?thesis using True by (simp add: delete_chat_def Let_def)
  next
    case same: True
    then obtain p rest where c: "AList.delete k (chats s) = p # rest"
      using assms True unfolding deletes_last_chat_iff
      by (cases "AList.delete k (chats s)") blast+
    show ?thesis using True same c by (cases p) (simp add: delete_chat_def Let_def)
  qed
qed

lemma delete_chat_reset:
  assumes "deletes_last_chat (Delete_clicked k) s"
  shows "chat_counter (fst (delete_chat k s)) = 1"
proof -
  have k: "k \<in> set (map fst (chats s))" and a: "k = active_chat s"
    and d: "AList.delete k (chats s) = []"
    using assms unfolding deletes_last_chat_iff by blast+
  show ?thesis using k d a[symmetric] by (simp add: delete_chat_def Let_def)
qed

lemma submission_counter: "chat_counter (fst (handle_chat_submission e p s)) = chat_counter s"
  by (cases rule: submission_shape[of e p s]) simp_all

lemma script_run_counter:
  assumes "\<not> deletes_last_chat ev s"
  shows "chat_counter s \<le> chat_counter (fst (script_run e ev s))"
proof (cases rule: script_run_cases[of ev e s])
  case new
  then show ?thesis by (simp add: new_chat_counter)
next
  case (select k)
  then show ?thesis by simp
next
  case (delete k)
  then show ?thesis using assms delete_chat_counter[of k s] by simp
next
  case (submit p)
  then show ?thesis by (simp add: submission_counter)
next
  case idle
  then show ?thesis by simp
qed

lemma script_run_reset:
  assumes "deletes_last_chat ev s"
  shows "chat_counter (fst (script_run e ev s)) = 1"
proof -
  obtain k where ev: "ev = Delete_clicked k"
    using assms by (cases ev) (simp_all add: deletes_last_chat_def)
  have "k \<in> set (map fst (chats s))" using assms unfolding ev deletes_last_chat_iff by blast
  then have "script_run e ev s = delete_chat k s" using ev by (simp add: script_run_delete)
  then show ?thesis using delete_chat_reset assms ev by simp
qed

lemma script_run_minted:
  "ev = New_chat_clicked \<Longrightarrow>
   active_chat (fst (script_run e ev s)) = chat_id_of (chat_counter s + 1)
   \<and> chat_counter (fst (script_run e ev s)) = chat_counter s + 1"
  by (simp add: script_run_new new_chat_state)

lemma minted_ids_fresh:
  "no_reset runs s \<Longrightarrow>
   chat_counter s \<le> chat_counter (run_session runs s)
   \<and> (\<forall>i\<in>set (minted_ids runs s). \<exists>n. chat_counter s < n \<and> i = chat_id_of n)
   \<and> distinct (minted_ids runs s)"
proof (induction runs arbitrary: s)
  case Nil
  then show ?case by simp
next
  case (Cons r runs)
  obtain e ev where r: "r = (e, ev)" by (cases r)
  let ?s = "fst (script_run e ev s)"
  have ok: "\<not> deletes_last_chat ev s" and rest: "no_reset runs ?s"
    using Cons.prems by (simp_all add: r)
  have step: "chat_counter s \<le> chat_counter ?s" by (rule script_run_counter[OF ok])
  have ih: "chat_counter ?s \<le> chat_counter (run_session runs ?s)"
    "\<forall>i\<in>set (minted_ids runs ?s). \<exists>n. chat_counter ?s < n \<and> i = chat_id_of n"
    "distinct (minted_ids runs ?s)"
    using Cons.IH[OF rest] by simp_all
  have later: "\<forall>i\<in>set (minted_ids runs ?s). \<exists>n. chat_counter s < n \<and> i = chat_id_of n"
  proof
    fix i assume "i \<in> set (minted_ids runs ?s)"
    then obtain n where "chat_counter ?s < n" and "i = chat_id_of n" using ih(2) by blast
    then show "\<exists>n. chat_counter s < n \<and> i = chat_id_of n"
      using step by (intro exI[of _ n]) simp
  qed
  show ?case
  proof (cases "ev = New_chat_clicked")
    case False
    then show ?thesis using step ih later by (simp add: r)
  next
    case True
    have a: "active_chat ?s = chat_id_of (chat_counter s + 1)"
      and c: "chat_counter ?s = chat_counter s + 1"
      using script_run_minted[OF True] by simp_all
    have "active_chat ?s \<notin> set (minted_ids runs ?s)"
    proof
      assume "active_chat ?s \<in> set (minted_ids runs ?s)"
      then obtain n where "chat_counter ?s < n" and "active_chat ?s = chat_id_of n"
        using ih(2) by blast
      then show False using a c chat_id_of_inj[of "chat_counter s + 1" n] by simp
    qed
    moreover have "\<exists>n. chat_counter s < n \<and> active_chat ?s = chat_id_of n"
      using a by (intro exI[of _ "chat_counter s + 1"]) simp
    ultimately show ?thesis using True step ih later by (simp add: r)
  qed
qed


text \<open>
  C1, as the specification words it, fails. From the initial state: New Chat makes
  "Chat 2" and the counter 2; deleting "Chat 2" and then "Chat 1" removes the last thread,
  and \<^verbatim>\<open>delete_chat\<close> sets the counter back to 1; the next New Chat mints "Chat 2" a
  second time.
\<close>

theorem counter_reset_counterexample:
  "chat_counter (run_session
      [(const_env (Inr []) (Inr []), New_chat_clicked),
       (const_env (Inr []) (Inr []), Delete_clicked (ustr ''Chat 2''))] init_state) = 2
   \<and> chat_counter (fst (script_run (const_env (Inr []) (Inr []))
        (Delete_clicked (ustr ''Chat 1''))
        (run_session
          [(const_env (Inr []) (Inr []), New_chat_clicked),
           (const_env (Inr []) (Inr []), Delete_clicked (ustr ''Chat 2''))] init_state))) = 1
   \<and> minted_ids
        [(const_env (Inr []) (Inr []), New_chat_clicked),
         (const_env (Inr []) (Inr []), Delete_clicked (ustr ''Chat 2'')),
         (const_env (Inr []) (Inr []), Delete_clicked (ustr ''Chat 1'')),
         (const_env (Inr []) (Inr []), New_chat_clicked)] init_state
       = [ustr ''Chat 2'', ustr ''Chat 2'']"
  by (simp add: script_run_new script_run_delete new_chat_state delete_chat_def Let_def
        init_state_def chat_id_of_def str_int_def str_nat.simps ustr_def)

text \<open>
  C1, amended. A run of the script never lowers the counter unless it deletes the only
  thread left, and that run sets the counter to 1. Over any stretch of a session without such
  a deletion the counter at the end is at least the counter at the start, every identifier
  minted by New Chat is "Chat n" for an n above the counter at the start, and no identifier
  is minted twice.
\<close>

theorem counter_monotone_between_resets:
  "(\<not> deletes_last_chat ev s \<longrightarrow> chat_counter s \<le> chat_counter (fst (script_run e ev s)))
   \<and> (deletes_last_chat ev s \<longrightarrow> chat_counter (fst (script_run e ev s)) = 1)
   \<and> (no_reset runs s \<longrightarrow>
        chat_counter s \<le> chat_counter (run_session runs s)
        \<and> (\<forall>i\<in>set (minted_ids runs s). \<exists>n. chat_counter s < n \<and> i = chat_id_of n)
        \<and> distinct (minted_ids runs s))"
  using script_run_counter[of ev s e] script_run_reset[of ev s e] minted_ids_fresh[of runs s]
  by blast

theorem counter_monotone_between_resets_witness:
  "\<not> deletes_last_chat (Delete_clicked (ustr ''Chat 1'')) (fst (new_chat init_state))
   \<and> chat_counter (fst (new_chat init_state))
       \<le> chat_counter (fst (script_run (const_env (Inr []) (Inr []))
            (Delete_clicked (ustr ''Chat 1'')) (fst (new_chat init_state))))
   \<and> deletes_last_chat (Delete_clicked (ustr ''Chat 1'')) init_state
   \<and> chat_counter (fst (script_run (const_env (Inr []) (Inr []))
            (Delete_clicked (ustr ''Chat 1'')) init_state)) = 1
   \<and> no_reset
        [(const_env (Inr []) (Inr []), New_chat_clicked),
         (const_env (Inr []) (Inr []), Delete_clicked (ustr ''Chat 1'')),
         (const_env (Inr []) (Inr []), New_chat_clicked)] init_state
   \<and> distinct (minted_ids
        [(const_env (Inr []) (Inr []), New_chat_clicked),
         (const_env (Inr []) (Inr []), Delete_clicked (ustr ''Chat 1'')),
         (const_env (Inr []) (Inr []), New_chat_clicked)] init_state)
   \<and> chat_counter init_state \<le> chat_counter (run_session
        [(const_env (Inr []) (Inr []), New_chat_clicked),
         (const_env (Inr []) (Inr []), Delete_clicked (ustr ''Chat 1'')),
         (const_env (Inr []) (Inr []), New_chat_clicked)] init_state)"
proof -
  let ?e = "const_env (Inr []) (Inr [])"
  let ?runs = "[(?e, New_chat_clicked), (?e, Delete_clicked (ustr ''Chat 1'')),
               (?e, New_chat_clicked)]"
  have h1: "\<not> deletes_last_chat (Delete_clicked (ustr ''Chat 1'')) (fst (new_chat init_state))"
    by (simp add: deletes_last_chat_def new_chat_state init_state_def chat_id_of_def
          str_int_def str_nat.simps ustr_def)
  have h2: "deletes_last_chat (Delete_clicked (ustr ''Chat 1'')) init_state"
    by (simp add: deletes_last_chat_def init_state_def)
  have h3: "no_reset ?runs init_state"
    by (simp add: deletes_last_chat_def script_run_new script_run_delete new_chat_state
          delete_chat_def Let_def init_state_def chat_id_of_def str_int_def str_nat.simps
          ustr_def)
  show ?thesis
    using h1 h2 h3
      counter_monotone_between_resets[of "Delete_clicked (ustr ''Chat 1'')"
        "fst (new_chat init_state)" ?e "[]"]
      counter_monotone_between_resets[of "Delete_clicked (ustr ''Chat 1'')" init_state ?e
        ?runs]
    by blast
qed


section \<open>When the title model is asked\<close>

lemma new_chat_fresh:
  assumes "ids_bounded s"
  shows "chat_id_of (chat_counter s + 1) \<notin> set (map fst (chats s))"
proof
  assume "chat_id_of (chat_counter s + 1) \<in> set (map fst (chats s))"
  then obtain n where "n \<le> chat_counter s" and "chat_id_of (chat_counter s + 1) = chat_id_of n"
    using assms unfolding ids_bounded_def by blast
  then show False using chat_id_of_inj[of "chat_counter s + 1" n] by simp
qed

lemma chat_1_bounded: "\<exists>n. n \<le> 1 \<and> ustr ''Chat 1'' = chat_id_of n"
  by (intro exI[of _ 1]) (simp add: chat_id_of_1)

lemma new_chat_ids_bounded:
  assumes "ids_bounded s"
  shows "ids_bounded (fst (new_chat s))"
  unfolding ids_bounded_def
proof
  fix k assume "k \<in> set (map fst (chats (fst (new_chat s))))"
  then have "k = chat_id_of (chat_counter s + 1) \<or> k \<in> set (map fst (chats s))"
    by (auto simp: new_chat_state AList.update_keys split: if_splits)
  then show "\<exists>n. n \<le> chat_counter (fst (new_chat s)) \<and> k = chat_id_of n"
  proof
    assume "k = chat_id_of (chat_counter s + 1)"
    then show ?thesis by (intro exI[of _ "chat_counter s + 1"]) (simp add: new_chat_counter)
  next
    assume "k \<in> set (map fst (chats s))"
    then obtain n where "n \<le> chat_counter s" and "k = chat_id_of n"
      using assms unfolding ids_bounded_def by blast
    then show ?thesis by (intro exI[of _ n]) (simp add: new_chat_counter)
  qed
qed

lemma delete_chat_ids_bounded:
  assumes "ids_bounded s"
  shows "ids_bounded (fst (delete_chat k s))"
proof (cases "deletes_last_chat (Delete_clicked k) s")
  case True
  then have m: "k \<in> set (map fst (chats s))" and a: "k = active_chat s"
    and d: "AList.delete k (chats s) = []"
    unfolding deletes_last_chat_iff by blast+
  have "chats (fst (delete_chat k s)) = [(ustr ''Chat 1'', [greeting])]"
    and "chat_counter (fst (delete_chat k s)) = 1"
    using m d a[symmetric] by (simp_all add: delete_chat_def Let_def)
  then show ?thesis using chat_1_bounded by (simp add: ids_bounded_def)
next
  case False
  have c: "chat_counter (fst (delete_chat k s)) = chat_counter s"
    by (rule delete_chat_counter[OF False])
  have "set (map fst (chats (fst (delete_chat k s)))) \<subseteq> set (map fst (chats s))"
  proof (cases "k \<in> set (map fst (chats s))")
    case unknown: False
    then show ?thesis by (simp add: delete_chat_def)
  next
    case True
    show ?thesis
    proof (cases "k = active_chat s")
      case differ: False
      then show ?thesis using True keys_delete[of k "chats s"]
        by (auto simp: delete_chat_def Let_def)
    next
      case same: True
      then obtain p rest where l: "AList.delete k (chats s) = p # rest"
        using False True unfolding deletes_last_chat_iff
        by (cases "AList.delete k (chats s)") blast+
      have "chats (fst (delete_chat k s)) = AList.delete k (chats s)"
        using True same l by (cases p) (simp add: delete_chat_def Let_def)
      then show ?thesis using keys_delete[of k "chats s"] by auto
    qed
  qed
  then show ?thesis using assms c unfolding ids_bounded_def by (metis subsetD)
qed

lemma submission_ids_bounded:
  assumes "ids_bounded s" and "active_known s"
  shows "ids_bounded (fst (handle_chat_submission e p s))"
proof -
  have a: "active_chat s \<in> set (map fst (chats s))"
    using assms(2) by (simp add: active_known_def)
  show ?thesis
  proof (cases rule: submission_shape[of e p s])
    case unchanged
    then show ?thesis using assms(1) by simp
  next
    case (stored h)
    then show ?thesis using assms(1) keys_update_known[OF a, of h]
      by (simp add: ids_bounded_def del: set_map)
  next
    case (retitled h t)
    then show ?thesis using assms(1) keys_update_known[OF a, of h]
      by (simp add: ids_bounded_def del: set_map)
  qed
qed

lemma script_run_well_formed:
  assumes "well_formed s"
  shows "well_formed (fst (script_run e ev s))"
proof -
  have k: "keys_agree s" and a: "active_known s" and b: "ids_bounded s"
    using assms by (simp_all add: well_formed_def)
  have "ids_bounded (fst (script_run e ev s))"
  proof (cases rule: script_run_cases[of ev e s])
    case new
    then show ?thesis using new_chat_ids_bounded[OF b] by simp
  next
    case (select j)
    then show ?thesis using b by (simp add: ids_bounded_def)
  next
    case (delete j)
    then show ?thesis using delete_chat_ids_bounded[OF b] by simp
  next
    case (submit p)
    have "ids_bounded (s\<lparr>user_input := p\<rparr>)" and "active_known (s\<lparr>user_input := p\<rparr>)"
      using a b by (simp_all add: ids_bounded_def active_known_def)
    then show ?thesis using submit submission_ids_bounded by simp
  next
    case idle
    then show ?thesis using b by simp
  qed
  then show ?thesis
    using script_run_keys_agree[OF k a] script_run_active_known[OF a]
    by (simp add: well_formed_def)
qed

lemma init_well_formed: "well_formed init_state"
proof -
  have "ids_bounded init_state"
    using chat_1_bounded by (simp add: ids_bounded_def init_state_def)
  then show ?thesis using init_keys_agree init_active_known by (simp add: well_formed_def)
qed

lemma run_session_well_formed: "well_formed s \<Longrightarrow> well_formed (run_session runs s)"
proof (induction runs arbitrary: s)
  case Nil
  then show ?case by simp
next
  case (Cons r runs)
  obtain e ev where r: "r = (e, ev)" by (cases r)
  show ?case using Cons.IH[OF script_run_well_formed[OF Cons.prems]] by (simp add: r)
qed

lemma submission_title_calls:
  "length (filter is_title_call (snd (handle_chat_submission e p s))) =
     (if p \<noteq> []
         \<and> \<not> isl (generate_content e (api_history_of
                (get_active_chat_history s @ [\<lparr>role = User, content = p\<rparr>])))
         \<and> is_default_title (chat_titles s) (active_chat s)
      then 1 else 0)"
proof (cases "p = []")
  case True
  then show ?thesis by (simp add: submission_empty)
next
  case False
  show ?thesis
  proof (cases "generate_content e (api_history_of
           (get_active_chat_history s @ [\<lparr>role = User, content = p\<rparr>]))")
    case (Inl cause)
    then show ?thesis by (simp add: submission_failure[OF False Inl])
  next
    case (Inr reply_text)
    show ?thesis
    proof (cases "is_default_title (chat_titles s) (active_chat s)")
      case True
      then show ?thesis using False Inr
        by (simp add: submission_success_retitle[OF False Inr True] title_calls_once)
    next
      case no: False
      then show ?thesis using False Inr
        by (simp add: submission_success_keep[OF False Inr no])
    qed
  qed
qed

lemma delete_chat_other_title:
  assumes "keys_agree s" and "k \<in> set (map fst (chats s))" and "k \<noteq> j"
  shows "map_of (chat_titles (fst (delete_chat j s))) k = map_of (chat_titles s) k"
proof (cases "j \<in> set (map fst (chats s))")
  case False
  then show ?thesis by (simp add: delete_chat_def)
next
  case True
  have t: "j \<in> set (map fst (chat_titles s))"
    using True keys_agree_sets[OF assms(1)] by blast
  have "k \<in> set (map fst (AList.delete j (chats s)))"
    using assms(2,3) unfolding keys_delete by simp
  then obtain p rest where l: "AList.delete j (chats s) = p # rest"
    by (cases "AList.delete j (chats s)") auto
  have "chat_titles (fst (delete_chat j s)) = AList.delete j (chat_titles s)"
    using True t l by (cases p) (simp add: delete_chat_def Let_def)
  then show ?thesis using assms(3) by simp
qed

text \<open>
  A thread whose stored title differs from its identifier keeps that title through every
  run that does not delete it, and no such run asks the title model on its behalf.
\<close>

lemma script_run_title_kept:
  assumes "well_formed s" and "map_of (chat_titles s) k = Some t" and "t \<noteq> k"
    and "ev \<noteq> Delete_clicked k"
  shows "map_of (chat_titles (fst (script_run e ev s))) k = Some t
       \<and> (active_chat s = k \<longrightarrow> filter is_title_call (snd (script_run e ev s)) = [])"
proof -
  have ka: "keys_agree s" and b: "ids_bounded s"
    using assms(1) by (simp_all add: well_formed_def)
  have kt: "k \<in> set (map fst (chat_titles s))"
    using assms(2) by (metis map_of_eq_None_iff option.distinct(1) set_map)
  then have kc: "k \<in> set (map fst (chats s))" using keys_agree_sets[OF ka] by blast
  show ?thesis
  proof (cases rule: script_run_cases[of ev e s])
    case new
    have "chat_id_of (chat_counter s + 1) \<noteq> k" using new_chat_fresh[OF b] kc by blast
    then show ?thesis using new assms(2)
      by (simp add: new_chat_state new_chat_effects AList.update_conv')
  next
    case (select j)
    then show ?thesis using assms(2) by simp
  next
    case (delete j)
    then have "k \<noteq> j" using assms(4) by blast
    then show ?thesis
      using delete delete_chat_other_title[OF ka kc] delete_chat_effects assms(2) by simp
  next
    case (submit p)
    let ?s = "s\<lparr>user_input := p\<rparr>"
    show ?thesis
    proof (cases rule: submission_shape[of e p ?s])
      case unchanged
      then show ?thesis using submit assms(2) by simp
    next
      case (stored h)
      then show ?thesis using submit assms(2) by simp
    next
      case (retitled h t')
      have "active_chat s \<noteq> k"
        using retitled(1) assms(2,3) by (auto simp: is_default_title_def)
      then show ?thesis using submit retitled(2) assms(2) by (simp add: AList.update_conv')
    qed
  next
    case idle
    then show ?thesis using assms(2) by simp
  qed
qed

lemma retitle_count_zero:
  assumes "well_formed s" and "map_of (chat_titles s) k = Some t" and "t \<noteq> k"
    and "Delete_clicked k \<notin> set (map snd runs)"
  shows "retitle_count k runs s = 0"
  using assms
proof (induction runs arbitrary: s)
  case Nil
  then show ?case by simp
next
  case (Cons r runs)
  obtain e ev where r: "r = (e, ev)" by (cases r)
  have ev: "ev \<noteq> Delete_clicked k" and rest: "Delete_clicked k \<notin> set (map snd runs)"
    using Cons.prems(4) by (auto simp: r)
  have kept: "map_of (chat_titles (fst (script_run e ev s))) k = Some t"
    and quiet: "active_chat s = k \<longrightarrow> filter is_title_call (snd (script_run e ev s)) = []"
    using script_run_title_kept[OF Cons.prems(1,2,3) ev] by simp_all
  have "retitle_count k runs (fst (script_run e ev s)) = 0"
    by (rule Cons.IH[OF script_run_well_formed[OF Cons.prems(1)] kept Cons.prems(3) rest])
  then show ?case using quiet by (simp add: r)
qed


text \<open>
  C4, as the specification words it, fails. The handler asks for a title whenever the
  stored title equals the identifier, so when the title model answers "Chat 1" for the thread
  "Chat 1", the second successful exchange asks again: two calls for one thread.
\<close>

theorem retitle_twice_counterexample:
  "retitle_count (ustr ''Chat 1'')
     [(const_env (Inr (ustr ''Hello'')) (Inr (ustr ''Chat 1'')), Chat_input (ustr ''Hi'')),
      (const_env (Inr (ustr ''Hello'')) (Inr (ustr ''Chat 1'')), Chat_input (ustr ''Hi''))]
     init_state = 2"
proof -
  let ?e = "const_env (Inr (ustr ''Hello'')) (Inr (ustr ''Chat 1''))"
  let ?p = "ustr ''Hi''"
  have p: "?p \<noteq> []" by (simp add: ustr_def)
  have reply: "\<And>h. generate_content ?e h = Inr (ustr ''Hello'')" by (simp add: const_env_def)
  have title: "fst (generate_title_from_summary ?e (ustr ''Hello'') ?p) = ustr ''Chat 1''"
    by (simp add: generate_title_from_summary_def const_env_def sanitize_title_def py_strip_def
          py_remove_def isspace_def ustr_def)
  let ?s0 = "init_state\<lparr>user_input := ?p\<rparr>"
  have d0: "is_default_title (chat_titles ?s0) (active_chat ?s0)"
    by (simp add: is_default_title_def init_state_def)
  let ?s1 = "fst (script_run ?e (Chat_input ?p) init_state)"
  have r1: "script_run ?e (Chat_input ?p) init_state = handle_chat_submission ?e ?p ?s0"
    by (rule script_run_input[OF p])
  have t1: "chat_titles ?s1 = [(ustr ''Chat 1'', ustr ''Chat 1'')]"
    and a1: "active_chat ?s1 = ustr ''Chat 1''"
    unfolding r1 submission_success_retitle[OF p reply d0] title
    by (simp_all add: init_state_def)
  have c1: "length (filter is_title_call (snd (script_run ?e (Chat_input ?p) init_state))) = 1"
    unfolding r1 using p d0 by (simp add: submission_title_calls reply)
  let ?s1' = "?s1\<lparr>user_input := ?p\<rparr>"
  have d1: "is_default_title (chat_titles ?s1') (active_chat ?s1')"
    by (simp add: t1 a1 is_default_title_def)
  have r2: "script_run ?e (Chat_input ?p) ?s1 = handle_chat_submission ?e ?p ?s1'"
    by (rule script_run_input[OF p])
  have c2: "length (filter is_title_call (snd (script_run ?e (Chat_input ?p) ?s1))) = 1"
    unfolding r2 using p d1 by (simp add: submission_title_calls reply)
  have a0: "active_chat init_state = ustr ''Chat 1''" by (simp add: init_state_def)
  show ?thesis using c1 c2 a0 a1 by simp
qed

text \<open>
  C4, amended. A submission asks the title model exactly when the prompt is non-empty, the
  completion call succeeds and the title of the active thread still equals its identifier:
  once then, never otherwise. For a thread of a session whose stored title differs from its
  identifier, no later run asks the title model on its behalf, however many exchanges
  follow, as long as the thread is not deleted. (A generated title equal to the identifier
  leaves the thread due for another call.)
\<close>

theorem retitle_only_while_default:
  "length (filter is_title_call (snd (handle_chat_submission e p s))) =
     (if p \<noteq> []
         \<and> \<not> isl (generate_content e (api_history_of
                (get_active_chat_history s @ [\<lparr>role = User, content = p\<rparr>])))
         \<and> is_default_title (chat_titles s) (active_chat s)
      then 1 else 0)
   \<and> (map_of (chat_titles (run_session before init_state)) k = Some t \<longrightarrow> t \<noteq> k \<longrightarrow>
        Delete_clicked k \<notin> set (map snd runs) \<longrightarrow>
        retitle_count k runs (run_session before init_state) = 0)"
  using submission_title_calls[of e p s]
    retitle_count_zero[OF run_session_well_formed[OF init_well_formed], of before k t runs]
  by blast

theorem retitle_only_while_default_witness:
  "map_of (chat_titles (run_session
       [(const_env (Inr (ustr ''Hello'')) (Inr (ustr ''Greetings'')), Chat_input (ustr ''Hi''))]
       init_state)) (ustr ''Chat 1'') = Some (ustr ''Greetings'')
   \<and> ustr ''Greetings'' \<noteq> ustr ''Chat 1''
   \<and> Delete_clicked (ustr ''Chat 1'') \<notin> set (map snd
        [(const_env (Inr (ustr ''Hello'')) (Inr (ustr ''Greetings'')), Chat_input (ustr ''Hi'')),
         (const_env (Inr (ustr ''Hello'')) (Inr (ustr ''Greetings'')), New_chat_clicked),
         (const_env (Inr (ustr ''Hello'')) (Inr (ustr ''Greetings'')),
          Select_clicked (ustr ''Chat 1'')),
         (const_env (Inr (ustr ''Hello'')) (Inr (ustr ''Greetings'')), Chat_input (ustr ''Hi''))])
   \<and> retitle_count (ustr ''Chat 1'')
        [(const_env (Inr (ustr ''Hello'')) (Inr (ustr ''Greetings'')), Chat_input (ustr ''Hi'')),
         (const_env (Inr (ustr ''Hello'')) (Inr (ustr ''Greetings'')), New_chat_clicked),
         (const_env (Inr (ustr ''Hello'')) (Inr (ustr ''Greetings'')),
          Select_clicked (ustr ''Chat 1'')),
         (const_env (Inr (ustr ''Hello'')) (Inr (ustr ''Greetings'')), Chat_input (ustr ''Hi''))]
        (run_session
          [(const_env (Inr (ustr ''Hello'')) (Inr (ustr ''Greetings'')), Chat_input (ustr ''Hi''))]
          init_state) = 0"
proof -
  let ?e = "const_env (Inr (ustr ''Hello'')) (Inr (ustr ''Greetings''))"
  let ?p = "ustr ''Hi''"
  let ?before = "[(?e, Chat_input ?p)]"
  let ?runs = "[(?e, Chat_input ?p), (?e, New_chat_clicked),
                (?e, Select_clicked (ustr ''Chat 1'')), (?e, Chat_input ?p)]"
  have p: "?p \<noteq> []" by (simp add: ustr_def)
  have reply: "\<And>h. generate_content ?e h = Inr (ustr ''Hello'')" by (simp add: const_env_def)
  have title: "fst (generate_title_from_summary ?e (ustr ''Hello'') ?p) = ustr ''Greetings''"
    by (simp add: generate_title_from_summary_def const_env_def sanitize_title_def py_strip_def
          py_remove_def isspace_def ustr_def)
  let ?s0 = "init_state\<lparr>user_input := ?p\<rparr>"
  have d0: "is_default_title (chat_titles ?s0) (active_chat ?s0)"
    by (simp add: is_default_title_def init_state_def)
  have r1: "script_run ?e (Chat_input ?p) init_state = handle_chat_submission ?e ?p ?s0"
    by (rule script_run_input[OF p])
  have h1: "map_of (chat_titles (run_session ?before init_state)) (ustr ''Chat 1'')
              = Some (ustr ''Greetings'')"
    unfolding run_session.simps r1 submission_success_retitle[OF p reply d0] title
    by (simp add: init_state_def)
  have h2: "ustr ''Greetings'' \<noteq> ustr ''Chat 1''" by (simp add: ustr_def)
  have h3: "Delete_clicked (ustr ''Chat 1'') \<notin> set (map snd ?runs)" by simp
  show ?thesis
    using h1 h2 h3
      retitle_only_while_default[of ?e ?p init_state ?before "ustr ''Chat 1''"
        "ustr ''Greetings''" ?runs]
    by blast
qed


end
